theory Spec2Isabelle
  imports Complex_Main "HOL-Library.Word"
begin

section \<open>PlaystationController2USB: the sketch's data\<close>

text \<open>
  The sketch \<^verbatim>\<open>PlaystationController2USB.ino\<close> polls a PSX controller through
  \<^verbatim>\<open>PsxControllerBitBang\<close> and writes a USB joystick through \<^verbatim>\<open>Joystick_\<close>.
  Both libraries are outside the repository. What they answer during one call of
  \<^verbatim>\<open>loop ()\<close> is an input of the model; what the sketch asks of them is the
  call trace the model returns.
\<close>

type_synonym byte = "8 word"
type_synonym ulong = "32 word"

text \<open>
  The constants of \<^verbatim>\<open>PsxNewLib\<close> the sketch uses (\<^verbatim>\<open>const byte\<close> each). The header
  is not part of the repository, so they are parameters of every function below.
\<close>

record psx_consts =
  ANALOG_MIN_VALUE :: byte
  ANALOG_MAX_VALUE :: byte
  ANALOG_IDLE_VALUE :: byte

text \<open>
  The values the sketch's own comments give, used for the concrete examples: line 155 has
  the raw range \<^verbatim>\<open>[0 ... 255]\<close>, line 157 has \<^verbatim>\<open>[127 ... -128]\<close> for
  \<^verbatim>\<open>ANALOG_IDLE_VALUE - x - 1\<close>, which fixes the idle value at 128.
\<close>

definition PsxNewLib_consts :: psx_consts where
  "PsxNewLib_consts =
     \<lparr>ANALOG_MIN_VALUE = 0, ANALOG_MAX_VALUE = 255, ANALOG_IDLE_VALUE = 128\<rparr>"

text \<open>The same constants with the idle value 127 that the spec's scenarios compute with.\<close>

definition spec_idle_consts :: psx_consts where
  "spec_idle_consts =
     \<lparr>ANALOG_MIN_VALUE = 0, ANALOG_MAX_VALUE = 255, ANALOG_IDLE_VALUE = 127\<rparr>"

datatype psx_button =
    PSB_SQUARE | PSB_CROSS | PSB_CIRCLE | PSB_TRIANGLE
  | PSB_L1 | PSB_R1 | PSB_L2 | PSB_R2
  | PSB_SELECT | PSB_START | PSB_L3 | PSB_R3
  | PSB_PAD_UP | PSB_PAD_DOWN | PSB_PAD_LEFT | PSB_PAD_RIGHT

text \<open>
  \<^verbatim>\<open>Joystick_ usbStick\<close>: the part of the library object the sketch writes, which is
  what \<^verbatim>\<open>sendState\<close> transmits.
\<close>

record joystick =
  buttons :: "bool list"
  xAxis :: int
  yAxis :: int
  rxAxis :: int
  ryAxis :: int
  hatSwitch :: int

text \<open>
  The sketch's mutable state: \<^verbatim>\<open>static unsigned long last\<close> (32 bits on the AVR),
  \<^verbatim>\<open>boolean haveController\<close> and the joystick object.
\<close>

record sketch =
  last_millis :: ulong
  haveController :: bool
  usbStick :: joystick

text \<open>
  What the outside answers during one call of \<^verbatim>\<open>loop ()\<close>. \<^verbatim>\<open>millis ()\<close> is read
  twice, in the test of line 88 and in the assignment of line 89. The analog getters
  return \<^verbatim>\<open>false\<close> (here \<open>None\<close>) or the two bytes.
\<close>

record tick =
  millis_test :: ulong
  millis_store :: ulong
  begin_ok :: bool
  enterConfigMode_ok :: bool
  enableAnalogSticks_ok :: bool
  exitConfigMode_ok :: bool
  read_ok :: bool
  buttonPressed :: "psx_button \<Rightarrow> bool"
  getLeftAnalog :: "(byte \<times> byte) option"
  getRightAnalog :: "(byte \<times> byte) option"

text \<open>The library calls that are observable from outside, in the order the sketch makes them.\<close>

datatype call =
    Psx_begin
  | Psx_enterConfigMode
  | Psx_enableAnalogSticks
  | Psx_exitConfigMode
  | Psx_read
  | SendState joystick

section \<open>Constants and macros of the sketch\<close>

definition POLLING_INTERVAL :: ulong where
  "POLLING_INTERVAL = 1000 div 50"

definition ANALOG_DEAD_ZONE :: byte where
  "ANALOG_DEAD_ZONE = 50"

text \<open>
  Modelled from the spec: \<^verbatim>\<open>JOYSTICK_HATSWITCH_RELEASE\<close> belongs to the Joystick
  library, whose header is not part of the repository. The spec's hat switch is an angle in
  \<open>[0, 360)\<close> or "released", so the constant is a value that is no angle; the library
  uses \<open>-1\<close>.
\<close>

definition JOYSTICK_HATSWITCH_RELEASE :: int where
  "JOYSTICK_HATSWITCH_RELEASE = - 1"

text \<open>Arduino's \<^verbatim>\<open>abs\<close> macro, \<^verbatim>\<open>((x)>0?(x):-(x))\<close>, on a value promoted to \<^verbatim>\<open>int\<close>.\<close>

definition abs_macro :: "int \<Rightarrow> int" where
  "abs_macro x = (if x > 0 then x else - x)"

text \<open>\<^verbatim>\<open>#define deadify(var, thres) (abs (var) > thres ? (var) : 0)\<close>\<close>

definition deadify :: "int \<Rightarrow> int \<Rightarrow> int" where
  "deadify var thres = (if abs_macro var > thres then var else 0)"

text \<open>\<^verbatim>\<open>#define toDegrees(rad) (rad * 180.0 / PI)\<close>\<close>

definition toDegrees :: "real \<Rightarrow> real" where
  "toDegrees rad = rad * 180.0 / pi"

text \<open>
  \<^verbatim>\<open>atan2\<close> of the C library: the four-quadrant arctangent, with values in
  \<open>(-pi, pi]\<close>. The sketch computes in single-precision floating point; the model
  computes the same expression over the reals. The lemmas \<open>cast_mod_robust\<close> and
  \<open>axis_angles_robust\<close> below show that a computed value within half a degree of the
  real one gives the same hat angle on the four axes.
\<close>

definition atan2 :: "real \<Rightarrow> real \<Rightarrow> real" where
  "atan2 y x =
     (if 0 < x then arctan (y / x)
      else if x < 0 then (if 0 \<le> y then arctan (y / x) + pi else arctan (y / x) - pi)
      else if 0 < y then pi / 2
      else if y < 0 then - (pi / 2)
      else 0)"

text \<open>
  The conversion \<^verbatim>\<open>(uint16_t) d\<close> of a floating-point value: truncation towards zero.
  C defines it for \<open>-1 < d < 65536\<close> only; \<open>hat_degrees_in_cast_range\<close> shows that the
  sketch stays inside.
\<close>

definition cast_uint16 :: "real \<Rightarrow> nat" where
  "cast_uint16 d = nat \<lfloor>d\<rfloor> mod 65536"

section \<open>The hat switch (lines 155 to 171)\<close>

text \<open>
  \<^verbatim>\<open>int8_t rx = ANALOG_IDLE_VALUE - x - 1;\<close> The right-hand side is computed in
  \<^verbatim>\<open>int\<close> and narrowed to eight bits, read as two's complement.
\<close>

definition flip_coord :: "psx_consts \<Rightarrow> byte \<Rightarrow> int" where
  "flip_coord c x = sint (word_of_int (uint (ANALOG_IDLE_VALUE c) - uint x - 1) :: 8 word)"

text \<open>The pair \<open>(rx, ry)\<close> after both \<^verbatim>\<open>deadify\<close> assignments (lines 157 to 161).\<close>

definition filtered_deviation :: "psx_consts \<Rightarrow> byte \<Rightarrow> byte \<Rightarrow> int \<times> int" where
  "filtered_deviation c x y =
     (deadify (flip_coord c x) (uint ANALOG_DEAD_ZONE),
      deadify (flip_coord c y) (uint ANALOG_DEAD_ZONE))"

text \<open>
  The test of line 163: \<open>None\<close> when the hat is released, otherwise the arguments
  \<open>(ry, rx)\<close> with which line 167 calls \<^verbatim>\<open>atan2\<close>.
\<close>

definition atan2_args :: "psx_consts \<Rightarrow> byte \<Rightarrow> byte \<Rightarrow> (int \<times> int) option" where
  "atan2_args c x y =
     (let (rx, ry) = filtered_deviation c x y
      in if rx = 0 \<and> ry = 0 then None else Some (ry, rx))"

text \<open>
  Line 167, \<^verbatim>\<open>float angle = atan2 (ry, rx) + 2 * PI - PI / 2\<close>, and the argument of the
  cast in line 168, \<^verbatim>\<open>toDegrees (angle) + 0.5\<close>.
\<close>

definition hat_degrees :: "int \<Rightarrow> int \<Rightarrow> real" where
  "hat_degrees ry rx =
     (let angle = atan2 (real_of_int ry) (real_of_int rx) + 2 * pi - pi / 2
      in toDegrees angle + 0.5)"

text \<open>Line 168: \<^verbatim>\<open>uint16_t intAngle = ((uint16_t) (toDegrees (angle) + 0.5)) % 360\<close>\<close>

definition intAngle :: "int \<Rightarrow> int \<Rightarrow> nat" where
  "intAngle ry rx = cast_uint16 (hat_degrees ry rx) mod 360"

text \<open>The value the sketch passes to \<^verbatim>\<open>setHatSwitch (0, ...)\<close> for a right stick at \<open>(x, y)\<close>.\<close>

definition hat_value :: "psx_consts \<Rightarrow> byte \<Rightarrow> byte \<Rightarrow> int" where
  "hat_value c x y =
     (case atan2_args c x y of
        None \<Rightarrow> JOYSTICK_HATSWITCH_RELEASE
      | Some (ry, rx) \<Rightarrow> int (intAngle ry rx))"

section \<open>The report mapper (lines 118 to 171)\<close>

text \<open>
  \<^verbatim>\<open>setButton (index, value)\<close> on the list of button states; the sketch uses the
  indices 0 to 11 of its 12 buttons.
\<close>

definition setButton :: "nat \<Rightarrow> bool \<Rightarrow> joystick \<Rightarrow> joystick" where
  "setButton n v j = j\<lparr>buttons := (buttons j)[n := v]\<rparr>"

definition map_buttons :: "tick \<Rightarrow> joystick \<Rightarrow> joystick" where
  "map_buttons i =
     setButton 11 (buttonPressed i PSB_R3) \<circ>
     setButton 10 (buttonPressed i PSB_L3) \<circ>
     setButton 9 (buttonPressed i PSB_START) \<circ>
     setButton 8 (buttonPressed i PSB_SELECT) \<circ>
     setButton 7 (buttonPressed i PSB_R2) \<circ>
     setButton 6 (buttonPressed i PSB_L2) \<circ>
     setButton 5 (buttonPressed i PSB_R1) \<circ>
     setButton 4 (buttonPressed i PSB_L1) \<circ>
     setButton 3 (buttonPressed i PSB_TRIANGLE) \<circ>
     setButton 2 (buttonPressed i PSB_CIRCLE) \<circ>
     setButton 1 (buttonPressed i PSB_CROSS) \<circ>
     setButton 0 (buttonPressed i PSB_SQUARE)"

text \<open>Lines 132 to 146: the D-pad makes up the X and Y axes.\<close>

definition map_dpad_y :: "psx_consts \<Rightarrow> tick \<Rightarrow> joystick \<Rightarrow> joystick" where
  "map_dpad_y c i j =
     (if buttonPressed i PSB_PAD_UP then j\<lparr>yAxis := uint (ANALOG_MIN_VALUE c)\<rparr>
      else if buttonPressed i PSB_PAD_DOWN then j\<lparr>yAxis := uint (ANALOG_MAX_VALUE c)\<rparr>
      else j\<lparr>yAxis := uint (ANALOG_IDLE_VALUE c)\<rparr>)"

definition map_dpad_x :: "psx_consts \<Rightarrow> tick \<Rightarrow> joystick \<Rightarrow> joystick" where
  "map_dpad_x c i j =
     (if buttonPressed i PSB_PAD_LEFT then j\<lparr>xAxis := uint (ANALOG_MIN_VALUE c)\<rparr>
      else if buttonPressed i PSB_PAD_RIGHT then j\<lparr>xAxis := uint (ANALOG_MAX_VALUE c)\<rparr>
      else j\<lparr>xAxis := uint (ANALOG_IDLE_VALUE c)\<rparr>)"

text \<open>Lines 149 to 152: the left stick, when the getter succeeds.\<close>

definition map_left :: "tick \<Rightarrow> joystick \<Rightarrow> joystick" where
  "map_left i j =
     (case getLeftAnalog i of
        None \<Rightarrow> j
      | Some (x, y) \<Rightarrow> j\<lparr>rxAxis := uint x, ryAxis := uint y\<rparr>)"

text \<open>Lines 155 to 171: the right stick, when the getter succeeds.\<close>

definition map_right :: "psx_consts \<Rightarrow> tick \<Rightarrow> joystick \<Rightarrow> joystick" where
  "map_right c i j =
     (case getRightAnalog i of
        None \<Rightarrow> j
      | Some (x, y) \<Rightarrow> j\<lparr>hatSwitch := hat_value c x y\<rparr>)"

definition map_report :: "psx_consts \<Rightarrow> tick \<Rightarrow> joystick \<Rightarrow> joystick" where
  "map_report c i j =
     map_right c i (map_left i (map_dpad_x c i (map_dpad_y c i (map_buttons i j))))"

section \<open>One call of loop\<close>

text \<open>
  The configuration calls of lines 94 to 105, after \<^verbatim>\<open>psx.begin ()\<close> succeeded: the
  two later steps are inside the \<^verbatim>\<open>else\<close> of the first. What the calls return only
  selects a \<^verbatim>\<open>debugln\<close> message, and the debug macros expand to nothing unless
  \<^verbatim>\<open>ENABLE_SERIAL_DEBUG\<close> is defined, so the messages are not part of the model.
\<close>

definition configure :: "tick \<Rightarrow> call list" where
  "configure i =
     (if \<not> enterConfigMode_ok i then [Psx_enterConfigMode]
      else [Psx_enterConfigMode, Psx_enableAnalogSticks, Psx_exitConfigMode])"

definition loop :: "psx_consts \<Rightarrow> tick \<Rightarrow> sketch \<Rightarrow> sketch \<times> call list" where
  "loop c i s =
     (if millis_test i - last_millis s \<ge> POLLING_INTERVAL then
        let s1 = s\<lparr>last_millis := millis_store i\<rparr> in
        if \<not> haveController s1 then
          if begin_ok i then (s1\<lparr>haveController := True\<rparr>, Psx_begin # configure i)
          else (s1, [Psx_begin])
        else if \<not> read_ok i then (s1\<lparr>haveController := False\<rparr>, [Psx_read])
        else
          let j = map_report c i (usbStick s1)
          in (s1\<lparr>usbStick := j\<rparr>, [Psx_read, SendState j])
      else (s, []))"

text \<open>
  A sequence of calls of \<^verbatim>\<open>loop ()\<close>, as the Arduino core makes them: the trace of each
  call, in order.
\<close>

fun run :: "psx_consts \<Rightarrow> sketch \<Rightarrow> tick list \<Rightarrow> call list list" where
  "run c s [] = []"
| "run c s (i # ts) = snd (loop c i s) # run c (fst (loop c i s)) ts"

text \<open>The state after a sequence of calls.\<close>

fun state_after :: "psx_consts \<Rightarrow> sketch \<Rightarrow> tick list \<Rightarrow> sketch" where
  "state_after c s [] = s"
| "state_after c s (i # ts) = state_after c (fst (loop c i s)) ts"

text \<open>
  The values \<^verbatim>\<open>millis ()\<close> returns over a sequence of calls, in the order the sketch
  reads them: two for each call.
\<close>

definition clock_words :: "tick list \<Rightarrow> ulong list" where
  "clock_words ts = concat (map (\<lambda>i. [millis_test i, millis_store i]) ts)"

text \<open>Classifying the calls of a trace.\<close>

fun is_report :: "call \<Rightarrow> bool" where
  "is_report (SendState j) = True"
| "is_report _ = False"

fun is_config :: "call \<Rightarrow> bool" where
  "is_config Psx_enterConfigMode = True"
| "is_config Psx_enableAnalogSticks = True"
| "is_config Psx_exitConfigMode = True"
| "is_config _ = False"

section \<open>Concrete states and inputs for the examples\<close>

definition example_joystick :: joystick where
  "example_joystick =
     \<lparr>buttons = replicate 12 False, xAxis = 128, yAxis = 128, rxAxis = 200, ryAxis = 30,
      hatSwitch = 90\<rparr>"

text \<open>The sketch as it starts: \<^verbatim>\<open>last = 0\<close>, \<^verbatim>\<open>haveController = false\<close>.\<close>

definition boot_sketch :: sketch where
  "boot_sketch = \<lparr>last_millis = 0, haveController = False, usbStick = example_joystick\<rparr>"

definition connected_sketch :: sketch where
  "connected_sketch = boot_sketch\<lparr>haveController := True\<rparr>"

text \<open>
  A call of \<^verbatim>\<open>loop ()\<close> at clock value \<open>t\<close> in which every library call succeeds, no
  button is pressed and both analog getters fail.
\<close>

definition tick_at :: "ulong \<Rightarrow> tick" where
  "tick_at t =
     \<lparr>millis_test = t, millis_store = t, begin_ok = True, enterConfigMode_ok = True,
      enableAnalogSticks_ok = True, exitConfigMode_ok = True, read_ok = True,
      buttonPressed = (\<lambda>b. False), getLeftAnalog = None, getRightAnalog = None\<rparr>"

text \<open>All four directions of the D-pad held down at once.\<close>

definition up_down_left_right :: "psx_button \<Rightarrow> bool" where
  "up_down_left_right b = (b \<in> {PSB_PAD_UP, PSB_PAD_DOWN, PSB_PAD_LEFT, PSB_PAD_RIGHT})"

section \<open>Facts about the macros and the dead zone\<close>

lemma abs_macro_abs: "abs_macro x = \<bar>x\<bar>"
  by (simp add: abs_macro_def)

lemma deadify_alt: "deadify v t = (if \<bar>v\<bar> \<le> t then 0 else v)"
  by (simp add: deadify_def abs_macro_abs)

lemma dead_zone_50: "uint ANALOG_DEAD_ZONE = 50"
  by (simp add: ANALOG_DEAD_ZONE_def)

lemma PsxNewLib_idle: "ANALOG_IDLE_VALUE PsxNewLib_consts = 128"
  by (simp add: PsxNewLib_consts_def)

lemma spec_idle: "ANALOG_IDLE_VALUE spec_idle_consts = 127"
  by (simp add: spec_idle_consts_def)

text \<open>With the idle value 128 the narrowing to eight bits never wraps.\<close>

lemma flip_coord_idle_128:
  assumes "ANALOG_IDLE_VALUE c = 128"
  shows "flip_coord c x = 128 - uint x - 1"
proof -
  have "uint x < 256" using uint_lt2p [of x] by simp
  moreover have "- 1 < uint x" using uint_ge_0 [of x] by linarith
  ultimately have "- (2 ^ 7) \<le> 127 - uint x" and "127 - uint x < 2 ^ 7"
    by simp_all
  then have "signed_take_bit 7 (127 - uint x) = 127 - uint x"
    by (rule signed_take_bit_int_eq_self)
  moreover have "flip_coord c x = signed_take_bit 7 (127 - uint x)"
    unfolding flip_coord_def assms sint_sbintrunc' by simp
  ultimately show ?thesis by simp
qed

lemma flip_coord_range: "- 128 \<le> flip_coord c x \<and> flip_coord c x \<le> 127"
  unfolding flip_coord_def
  using sint_ge [of "word_of_int (uint (ANALOG_IDLE_VALUE c) - uint x - 1) :: 8 word"]
        sint_lt [of "word_of_int (uint (ANALOG_IDLE_VALUE c) - uint x - 1) :: 8 word"]
  by simp

lemma filtered_PsxNewLib:
  "filtered_deviation PsxNewLib_consts 0 127 = (127, 0)"
  "filtered_deviation PsxNewLib_consts 127 0 = (0, 127)"
  "filtered_deviation PsxNewLib_consts 255 127 = (- 128, 0)"
  "filtered_deviation PsxNewLib_consts 127 255 = (0, - 128)"
  "filtered_deviation PsxNewLib_consts 200 127 = (- 73, 0)"
  "filtered_deviation PsxNewLib_consts 127 77 = (0, 0)"
  by (simp_all add: filtered_deviation_def flip_coord_def PsxNewLib_consts_def
      deadify_def abs_macro_def ANALOG_DEAD_ZONE_def)

lemma filtered_spec_idle:
  "filtered_deviation spec_idle_consts 0 127 = (126, 0)"
  "filtered_deviation spec_idle_consts 255 127 = (127, 0)"
  "filtered_deviation spec_idle_consts 200 127 = (- 74, 0)"
  by (simp_all add: filtered_deviation_def flip_coord_def spec_idle_consts_def
      deadify_def abs_macro_def ANALOG_DEAD_ZONE_def)

section \<open>Facts about the angle\<close>

lemma atan2_pos_x: "0 < x \<Longrightarrow> atan2 0 x = 0"
  by (simp add: atan2_def)

lemma atan2_neg_x: "x < 0 \<Longrightarrow> atan2 0 x = pi"
  by (simp add: atan2_def)

lemma atan2_pos_y: "0 < y \<Longrightarrow> atan2 y 0 = pi / 2"
  by (simp add: atan2_def)

lemma atan2_neg_y: "y < 0 \<Longrightarrow> atan2 y 0 = - (pi / 2)"
  by (simp add: atan2_def)

lemma atan2_range: "- pi < atan2 y x \<and> atan2 y x \<le> pi"
proof -
  have b: "- (pi / 2) < arctan (y / x)" "arctan (y / x) < pi / 2"
    by (rule arctan_lbound, rule arctan_ubound)
  have p: "0 < pi" by simp
  consider "0 < x" | "x < 0" "0 \<le> y" | "x < 0" "y < 0" | "x = 0" by linarith
  then show ?thesis
  proof cases
    case 1
    then have "atan2 y x = arctan (y / x)" by (simp add: atan2_def)
    with b p show ?thesis by linarith
  next
    case 2
    then have "y / x \<le> 0" by (simp add: divide_nonneg_neg)
    then have "arctan (y / x) \<le> 0" by simp
    moreover from 2 have "atan2 y x = arctan (y / x) + pi" by (simp add: atan2_def)
    ultimately show ?thesis using b p by linarith
  next
    case 3
    then have "0 < y / x" by (simp add: divide_neg_neg)
    then have "0 < arctan (y / x)" by simp
    moreover from 3 have "atan2 y x = arctan (y / x) - pi" by (simp add: atan2_def)
    ultimately show ?thesis using b p by linarith
  next
    case 4
    then have "atan2 y x = pi / 2 \<or> atan2 y x = - (pi / 2) \<or> atan2 y x = 0"
      by (simp add: atan2_def)
    with p show ?thesis by linarith
  qed
qed

lemma hat_degrees_alt:
  "hat_degrees ry rx = toDegrees (atan2 (real_of_int ry) (real_of_int rx)) + 270 + 1 / 2"
  by (simp add: hat_degrees_def toDegrees_def field_simps)

lemma toDegrees_mono: "a < b \<Longrightarrow> toDegrees a < toDegrees b"
  by (simp add: toDegrees_def divide_strict_right_mono)

lemma toDegrees_mono_le: "a \<le> b \<Longrightarrow> toDegrees a \<le> toDegrees b"
  by (simp add: toDegrees_def divide_right_mono)

lemma toDegrees_pi:
  "toDegrees pi = 180" "toDegrees (- pi) = - 180" "toDegrees 0 = 0"
  "toDegrees (pi / 2) = 90" "toDegrees (- (pi / 2)) = - 90"
  by (simp_all add: toDegrees_def)

text \<open>The argument of the cast lies between 90.5 and 450.5, inside the range of \<^verbatim>\<open>uint16_t\<close>.\<close>

lemma hat_degrees_in_cast_range: "90 < hat_degrees ry rx \<and> hat_degrees ry rx < 451"
proof -
  let ?a = "atan2 (real_of_int ry) (real_of_int rx)"
  have "- pi < ?a" "?a \<le> pi" using atan2_range by blast+
  then have "- 180 < toDegrees ?a" "toDegrees ?a \<le> 180"
    using toDegrees_mono [of "- pi" ?a] toDegrees_mono_le [of ?a pi]
    by (simp_all add: toDegrees_pi)
  then show ?thesis by (simp add: hat_degrees_alt)
qed

lemma floor_half_robust:
  assumes "\<bar>e\<bar> < 1 / 2"
  shows "\<lfloor>real n + 1 / 2 + e\<rfloor> = int n"
  using assms by (intro floor_unique) (simp_all add: abs_less_iff)

text \<open>
  A value that should be \<open>n + 0.5\<close> and is off by less than a half still casts to \<open>n\<close>.
\<close>

lemma cast_mod_robust:
  assumes "\<bar>e\<bar> < 1 / 2" and "n < 65536"
  shows "cast_uint16 (real n + 1 / 2 + e) mod 360 = n mod 360"
  using assms by (simp add: cast_uint16_def floor_half_robust)

lemma cast_half: "n < 65536 \<Longrightarrow> cast_uint16 (real n + 1 / 2) mod 360 = n mod 360"
  using cast_mod_robust [of 0 n] by simp

lemma intAngle_pos_x: "0 < rx \<Longrightarrow> intAngle 0 rx = 270"
  using cast_half [of 270] by (simp add: intAngle_def hat_degrees_alt atan2_pos_x toDegrees_pi)

lemma intAngle_neg_x: "rx < 0 \<Longrightarrow> intAngle 0 rx = 90"
  using cast_half [of 450] by (simp add: intAngle_def hat_degrees_alt atan2_neg_x toDegrees_pi)

lemma intAngle_pos_y: "0 < ry \<Longrightarrow> intAngle ry 0 = 0"
  using cast_half [of 360] by (simp add: intAngle_def hat_degrees_alt atan2_pos_y toDegrees_pi)

lemma intAngle_neg_y: "ry < 0 \<Longrightarrow> intAngle ry 0 = 180"
  using cast_half [of 180] by (simp add: intAngle_def hat_degrees_alt atan2_neg_y toDegrees_pi)

text \<open>
  On the four axes the angle does not depend on the last digits of the floating-point
  computation: any value within half a degree of the real one gives the same result.
\<close>

lemma axis_angles_robust:
  assumes "\<bar>e\<bar> < 1 / 2"
  shows "0 < rx \<Longrightarrow> cast_uint16 (hat_degrees 0 rx + e) mod 360 = 270"
    and "rx < 0 \<Longrightarrow> cast_uint16 (hat_degrees 0 rx + e) mod 360 = 90"
    and "0 < ry \<Longrightarrow> cast_uint16 (hat_degrees ry 0 + e) mod 360 = 0"
    and "ry < 0 \<Longrightarrow> cast_uint16 (hat_degrees ry 0 + e) mod 360 = 180"
  using cast_mod_robust [OF assms, of 270] cast_mod_robust [OF assms, of 450]
    cast_mod_robust [OF assms, of 360] cast_mod_robust [OF assms, of 180]
  by (simp_all add: hat_degrees_alt atan2_pos_x atan2_neg_x atan2_pos_y atan2_neg_y toDegrees_pi)

lemma intAngle_less_360: "intAngle ry rx < 360"
  by (simp add: intAngle_def)

lemma hat_value_alt:
  "hat_value c x y =
     (if filtered_deviation c x y = (0, 0) then JOYSTICK_HATSWITCH_RELEASE
      else int (intAngle (snd (filtered_deviation c x y)) (fst (filtered_deviation c x y))))"
  by (auto simp: hat_value_def atan2_args_def split: prod.splits)

section \<open>One call of loop, branch by branch\<close>

lemma POLLING_INTERVAL_20: "POLLING_INTERVAL = 20"
  by (simp add: POLLING_INTERVAL_def)

lemma loop_not_due:
  "\<not> POLLING_INTERVAL \<le> millis_test i - last_millis s \<Longrightarrow> loop c i s = (s, [])"
  by (simp add: loop_def)

lemma loop_connected_read_fails:
  "POLLING_INTERVAL \<le> millis_test i - last_millis s \<Longrightarrow> haveController s \<Longrightarrow> \<not> read_ok i \<Longrightarrow>
   loop c i s = (s\<lparr>last_millis := millis_store i, haveController := False\<rparr>, [Psx_read])"
  by (simp add: loop_def)

lemma loop_connected_read_ok:
  "POLLING_INTERVAL \<le> millis_test i - last_millis s \<Longrightarrow> haveController s \<Longrightarrow> read_ok i \<Longrightarrow>
   loop c i s = (s\<lparr>last_millis := millis_store i, usbStick := map_report c i (usbStick s)\<rparr>,
                 [Psx_read, SendState (map_report c i (usbStick s))])"
  by (simp add: loop_def Let_def)

text \<open>A poll with a successful read sends the joystick state as the mapper left it.\<close>

lemma loop_connected_report:
  assumes "POLLING_INTERVAL \<le> millis_test i - last_millis s" and "haveController s"
    and "read_ok i"
  shows "usbStick (fst (loop c i s)) = map_report c i (usbStick s)"
    and "snd (loop c i s) = [Psx_read, SendState (map_report c i (usbStick s))]"
  using assms by (simp_all add: loop_connected_read_ok)

lemma loop_probe_ok:
  "POLLING_INTERVAL \<le> millis_test i - last_millis s \<Longrightarrow> \<not> haveController s \<Longrightarrow> begin_ok i \<Longrightarrow>
   loop c i s =
     (s\<lparr>last_millis := millis_store i, haveController := True\<rparr>, Psx_begin # configure i)"
  by (simp add: loop_def)

lemma loop_probe_fails:
  "POLLING_INTERVAL \<le> millis_test i - last_millis s \<Longrightarrow> \<not> haveController s \<Longrightarrow> \<not> begin_ok i \<Longrightarrow>
   loop c i s = (s\<lparr>last_millis := millis_store i\<rparr>, [Psx_begin])"
  by (simp add: loop_def)

lemma loop_due_last:
  "POLLING_INTERVAL \<le> millis_test i - last_millis s \<Longrightarrow>
   last_millis (fst (loop c i s)) = millis_store i \<and> snd (loop c i s) \<noteq> []"
  by (simp add: loop_def Let_def)

lemma loop_ran_due:
  "snd (loop c i s) \<noteq> [] \<Longrightarrow> POLLING_INTERVAL \<le> millis_test i - last_millis s"
  by (rule ccontr) (simp add: loop_not_due)

lemma loop_last_millis:
  "last_millis (fst (loop c i s)) =
     (if POLLING_INTERVAL \<le> millis_test i - last_millis s then millis_store i
      else last_millis s)"
  by (simp add: loop_def Let_def)

lemma config_calls:
  "filter is_config (snd (loop c i s)) =
     (if POLLING_INTERVAL \<le> millis_test i - last_millis s \<and> \<not> haveController s \<and> begin_ok i
      then configure i else [])"
  by (simp add: loop_def Let_def configure_def)

section \<open>The report mapper, field by field\<close>

lemma yAxis_map_report:
  "yAxis (map_report c i j) =
     (if buttonPressed i PSB_PAD_UP then uint (ANALOG_MIN_VALUE c)
      else if buttonPressed i PSB_PAD_DOWN then uint (ANALOG_MAX_VALUE c)
      else uint (ANALOG_IDLE_VALUE c))"
  by (simp add: map_report_def map_right_def map_left_def map_dpad_x_def map_dpad_y_def
      split: option.splits)

lemma xAxis_map_report:
  "xAxis (map_report c i j) =
     (if buttonPressed i PSB_PAD_LEFT then uint (ANALOG_MIN_VALUE c)
      else if buttonPressed i PSB_PAD_RIGHT then uint (ANALOG_MAX_VALUE c)
      else uint (ANALOG_IDLE_VALUE c))"
  by (simp add: map_report_def map_right_def map_left_def map_dpad_x_def map_dpad_y_def
      split: option.splits)

lemma rxAxis_map_report:
  "rxAxis (map_report c i j) =
     (case getLeftAnalog i of None \<Rightarrow> rxAxis j | Some (x, y) \<Rightarrow> uint x)"
  by (simp add: map_report_def map_right_def map_left_def map_dpad_x_def map_dpad_y_def
      map_buttons_def setButton_def split: option.splits)

lemma ryAxis_map_report:
  "ryAxis (map_report c i j) =
     (case getLeftAnalog i of None \<Rightarrow> ryAxis j | Some (x, y) \<Rightarrow> uint y)"
  by (simp add: map_report_def map_right_def map_left_def map_dpad_x_def map_dpad_y_def
      map_buttons_def setButton_def split: option.splits)

lemma hatSwitch_map_report:
  "hatSwitch (map_report c i j) =
     (case getRightAnalog i of None \<Rightarrow> hatSwitch j | Some (x, y) \<Rightarrow> hat_value c x y)"
  by (simp add: map_report_def map_right_def map_left_def map_dpad_x_def map_dpad_y_def
      map_buttons_def setButton_def split: option.splits)

section \<open>Facts about the examples\<close>

lemma tick_at_simps:
  "millis_test (tick_at t) = t" "millis_store (tick_at t) = t" "begin_ok (tick_at t)"
  "read_ok (tick_at t)" "enterConfigMode_ok (tick_at t)"
  "getLeftAnalog (tick_at t) = None" "getRightAnalog (tick_at t) = None"
  by (simp_all add: tick_at_def)

lemma boot_sketch_simps:
  "last_millis boot_sketch = 0" "\<not> haveController boot_sketch"
  "usbStick boot_sketch = example_joystick"
  by (simp_all add: boot_sketch_def)

lemma connected_sketch_simps:
  "last_millis connected_sketch = 0" "haveController connected_sketch"
  "usbStick connected_sketch = example_joystick"
  by (simp_all add: connected_sketch_def boot_sketch_def)

lemma due_at_20:
  "POLLING_INTERVAL \<le> millis_test (tick_at 20) - last_millis connected_sketch"
  "POLLING_INTERVAL \<le> millis_test (tick_at 20\<lparr>read_ok := r\<rparr>) - last_millis connected_sketch"
  "POLLING_INTERVAL \<le> millis_test (tick_at 20) - last_millis boot_sketch"
  "POLLING_INTERVAL \<le> millis_test (tick_at 20\<lparr>enterConfigMode_ok := r\<rparr>) - last_millis boot_sketch"
  by (simp_all add: tick_at_def connected_sketch_def boot_sketch_def POLLING_INTERVAL_def)

text \<open>
  A connected sketch whose hat switch is released, polled at 20 ms with the right stick at
  \<open>r\<close>.
\<close>

lemma right_stick_tick_simps:
  "POLLING_INTERVAL
     \<le> millis_test (tick_at 20\<lparr>getRightAnalog := r\<rparr>) - last_millis (connected_sketch\<lparr>usbStick := u\<rparr>)"
  "haveController (connected_sketch\<lparr>usbStick := u\<rparr>)"
  "usbStick (connected_sketch\<lparr>usbStick := u\<rparr>) = u"
  "read_ok (tick_at 20\<lparr>getRightAnalog := r\<rparr>)"
  "getRightAnalog (tick_at 20\<lparr>getRightAnalog := r\<rparr>) = r"
  by (simp_all add: tick_at_def connected_sketch_def boot_sketch_def POLLING_INTERVAL_def)

lemma example_loop_5: "loop c (tick_at 5) boot_sketch = (boot_sketch, [])"
  by (rule loop_not_due) (simp add: tick_at_simps boot_sketch_simps POLLING_INTERVAL_def)

lemma example_loop_20:
  "loop c (tick_at 20) boot_sketch =
     (connected_sketch\<lparr>last_millis := 20\<rparr>, Psx_begin # configure (tick_at 20))"
proof -
  have "loop c (tick_at 20) boot_sketch =
      (boot_sketch\<lparr>last_millis := millis_store (tick_at 20), haveController := True\<rparr>,
       Psx_begin # configure (tick_at 20))"
    by (rule loop_probe_ok) (simp_all add: tick_at_simps boot_sketch_simps POLLING_INTERVAL_def)
  then show ?thesis by (simp add: tick_at_simps connected_sketch_def boot_sketch_def)
qed

lemma example_loop_30:
  "loop c (tick_at 30) (connected_sketch\<lparr>last_millis := 20\<rparr>) =
     (connected_sketch\<lparr>last_millis := 20\<rparr>, [])"
  by (rule loop_not_due) (simp add: tick_at_simps POLLING_INTERVAL_def)

lemma example_loop_45:
  "snd (loop c (tick_at 45) (connected_sketch\<lparr>last_millis := 20\<rparr>)) \<noteq> []"
proof -
  have "POLLING_INTERVAL
      \<le> millis_test (tick_at 45) - last_millis (connected_sketch\<lparr>last_millis := 20\<rparr>)"
    by (simp add: tick_at_simps POLLING_INTERVAL_def)
  then show ?thesis by (simp add: loop_due_last)
qed

lemma example_run:
  "run c boot_sketch [tick_at 5, tick_at 20, tick_at 30, tick_at 45] ! 1 \<noteq> []"
  "run c boot_sketch [tick_at 5, tick_at 20, tick_at 30, tick_at 45] ! 3 \<noteq> []"
  using example_loop_45 [of c]
  by (simp_all add: example_loop_5 example_loop_20 example_loop_30 numeral_3_eq_3)

lemma example_clock:
  "map of_nat [5, 5, 20, 20, 30, 30, 45, 45]
     = clock_words [tick_at 5, tick_at 20, tick_at 30, tick_at 45]"
  by (simp add: clock_words_def tick_at_simps)

text \<open>
  Two polls on either side of the wrap-around of the 32-bit clock: the second reading is
  \<open>2 ^ 32 + 14\<close> ms after the start, which the clock shows as 14.
\<close>

lemma example_wrap_clock:
  "map of_nat [4294967290, 4294967290, 4294967310, 4294967310]
     = clock_words [tick_at 4294967290, tick_at 14]"
  by (simp add: clock_words_def tick_at_simps)

lemma example_wrap_run:
  "run c boot_sketch [tick_at 4294967290, tick_at 14] ! 0 \<noteq> []"
  "run c boot_sketch [tick_at 4294967290, tick_at 14] ! 1 \<noteq> []"
proof -
  have d1: "POLLING_INTERVAL \<le> millis_test (tick_at 4294967290) - last_millis boot_sketch"
    by (simp add: tick_at_simps boot_sketch_simps POLLING_INTERVAL_def)
  then show "run c boot_sketch [tick_at 4294967290, tick_at 14] ! 0 \<noteq> []"
    by (simp add: loop_due_last)
  from d1 have "last_millis (fst (loop c (tick_at 4294967290) boot_sketch)) = 4294967290"
    by (simp add: loop_last_millis tick_at_simps)
  then have "POLLING_INTERVAL
      \<le> millis_test (tick_at 14) - last_millis (fst (loop c (tick_at 4294967290) boot_sketch))"
    by (simp add: tick_at_simps POLLING_INTERVAL_def)
  then show "run c boot_sketch [tick_at 4294967290, tick_at 14] ! 1 \<noteq> []"
    by (simp add: loop_due_last)
qed

text \<open>
  Two connected sketches that differ in the stored Rx axis only send different reports for
  the same frame.
\<close>

lemma report_depends_on_previous_state:
  "snd (loop c (tick_at 20) connected_sketch)
     \<noteq> snd (loop c (tick_at 20) (connected_sketch\<lparr>usbStick := example_joystick\<lparr>rxAxis := 0\<rparr>\<rparr>))"
proof -
  let ?s2 = "connected_sketch\<lparr>usbStick := example_joystick\<lparr>rxAxis := 0\<rparr>\<rparr>"
  have d2: "POLLING_INTERVAL \<le> millis_test (tick_at 20) - last_millis ?s2"
    by (simp add: tick_at_simps connected_sketch_simps POLLING_INTERVAL_def)
  have h2: "haveController ?s2" by (simp add: connected_sketch_simps)
  have "rxAxis (map_report c (tick_at 20) (usbStick connected_sketch)) = 200"
    by (simp add: rxAxis_map_report tick_at_simps connected_sketch_simps example_joystick_def)
  moreover have "rxAxis (map_report c (tick_at 20) (usbStick ?s2)) = 0"
    by (simp add: rxAxis_map_report tick_at_simps)
  ultimately have "map_report c (tick_at 20) (usbStick connected_sketch)
      \<noteq> map_report c (tick_at 20) (usbStick ?s2)"
    by auto
  then show ?thesis
    by (simp add: loop_connected_read_ok [OF due_at_20(1) connected_sketch_simps(2) tick_at_simps(4)]
        loop_connected_read_ok [OF d2 h2 tick_at_simps(4)])
qed

section \<open>The hat switch: dead zone, release and angle\<close>

text \<open>
  C4. For every right-stick input each deviation, the eight-bit value of
  \<open>center - raw - 1\<close>, is zeroed on its own, exactly when its magnitude is at most 50, and
  the report mapper sets the hat switch to released exactly when both filtered deviations
  are zero; that joystick state is the report a poll sends. With the idle value 128 the
  deviation is \<open>128 - raw - 1\<close> without wrap-around. For the raw input \<open>(127, 77)\<close> the
  mapper sets the hat switch to released, with the idle value 128 of the library
  (deviations 0 and 50) as with the 127 of the spec's scenario (deviations -1 and 49).
\<close>

theorem dead_zone_per_axis_release:
  "fst (filtered_deviation c x y) = (if \<bar>flip_coord c x\<bar> \<le> 50 then 0 else flip_coord c x)
   \<and> snd (filtered_deviation c x y) = (if \<bar>flip_coord c y\<bar> \<le> 50 then 0 else flip_coord c y)
   \<and> (fst (filtered_deviation c x y) = 0 \<longleftrightarrow> \<bar>flip_coord c x\<bar> \<le> 50)
   \<and> (snd (filtered_deviation c x y) = 0 \<longleftrightarrow> \<bar>flip_coord c y\<bar> \<le> 50)
   \<and> (hat_value c x y = JOYSTICK_HATSWITCH_RELEASE \<longleftrightarrow> filtered_deviation c x y = (0, 0))
   \<and> (getRightAnalog i = Some (x, y) \<longrightarrow>
        (hatSwitch (map_report c i j) = JOYSTICK_HATSWITCH_RELEASE
           \<longleftrightarrow> filtered_deviation c x y = (0, 0)))
   \<and> (getRightAnalog i = Some (x, y) \<and> haveController s
        \<and> POLLING_INTERVAL \<le> millis_test i - last_millis s \<and> read_ok i \<longrightarrow>
        snd (loop c i s) = [Psx_read, SendState (usbStick (fst (loop c i s)))]
        \<and> (hatSwitch (usbStick (fst (loop c i s))) = JOYSTICK_HATSWITCH_RELEASE
             \<longleftrightarrow> filtered_deviation c x y = (0, 0)))
   \<and> (ANALOG_IDLE_VALUE c = 128 \<longrightarrow> flip_coord c x = 128 - uint x - 1)
   \<and> (ANALOG_IDLE_VALUE c = 128 \<or> ANALOG_IDLE_VALUE c = 127 \<longrightarrow>
        \<bar>flip_coord c 127\<bar> \<le> 50 \<and> \<bar>flip_coord c 77\<bar> \<le> 50
        \<and> hat_value c 127 77 = JOYSTICK_HATSWITCH_RELEASE)
   \<and> ((ANALOG_IDLE_VALUE c = 128 \<or> ANALOG_IDLE_VALUE c = 127)
        \<and> getRightAnalog i = Some (127, 77) \<longrightarrow>
        hatSwitch (map_report c i j) = JOYSTICK_HATSWITCH_RELEASE)"
proof -
  have a: "hat_value c x y = JOYSTICK_HATSWITCH_RELEASE \<longleftrightarrow> filtered_deviation c x y = (0, 0)"
    by (simp add: hat_value_alt JOYSTICK_HATSWITCH_RELEASE_def)
  have b: "\<bar>flip_coord c 127\<bar> \<le> 50 \<and> \<bar>flip_coord c 77\<bar> \<le> 50
        \<and> hat_value c 127 77 = JOYSTICK_HATSWITCH_RELEASE"
    if "ANALOG_IDLE_VALUE c = 128 \<or> ANALOG_IDLE_VALUE c = 127"
    using that
    by (auto simp: hat_value_alt filtered_deviation_def flip_coord_def deadify_alt dead_zone_50)
  have f: "fst (filtered_deviation c x y) = (if \<bar>flip_coord c x\<bar> \<le> 50 then 0 else flip_coord c x)"
    and s: "snd (filtered_deviation c x y) = (if \<bar>flip_coord c y\<bar> \<le> 50 then 0 else flip_coord c y)"
    by (simp_all add: filtered_deviation_def deadify_alt dead_zone_50)
  have fz: "fst (filtered_deviation c x y) = 0 \<longleftrightarrow> \<bar>flip_coord c x\<bar> \<le> 50"
    and sz: "snd (filtered_deviation c x y) = 0 \<longleftrightarrow> \<bar>flip_coord c y\<bar> \<le> 50"
    by (auto simp: filtered_deviation_def deadify_alt dead_zone_50)
  have m: "hatSwitch (map_report c i j') = hat_value c x' y'"
    if "getRightAnalog i = Some (x', y')" for j' x' y'
    using that by (simp add: hatSwitch_map_report)
  have ma: "hatSwitch (map_report c i j) = JOYSTICK_HATSWITCH_RELEASE
      \<longleftrightarrow> filtered_deviation c x y = (0, 0)"
    if "getRightAnalog i = Some (x, y)"
    using m [OF that] a by simp
  have l: "snd (loop c i s) = [Psx_read, SendState (usbStick (fst (loop c i s)))]
        \<and> (hatSwitch (usbStick (fst (loop c i s))) = JOYSTICK_HATSWITCH_RELEASE
             \<longleftrightarrow> filtered_deviation c x y = (0, 0))"
    if "getRightAnalog i = Some (x, y)" "haveController s"
      "POLLING_INTERVAL \<le> millis_test i - last_millis s" "read_ok i"
    using m [OF that(1)] a loop_connected_report [OF that(3) that(2) that(4), of c]
    by simp
  have mb: "hatSwitch (map_report c i j) = JOYSTICK_HATSWITCH_RELEASE"
    if "ANALOG_IDLE_VALUE c = 128 \<or> ANALOG_IDLE_VALUE c = 127"
      "getRightAnalog i = Some (127, 77)"
    using m [OF that(2)] b [OF that(1)] by simp
  show ?thesis
    using a b f s fz sz ma l mb flip_coord_idle_128 [of c x] by blast
qed

theorem dead_zone_per_axis_release_witness:
  "ANALOG_IDLE_VALUE PsxNewLib_consts = 128
   \<and> flip_coord PsxNewLib_consts 127 = 128 - uint (127 :: byte) - 1
   \<and> \<bar>flip_coord PsxNewLib_consts 77\<bar> \<le> 50
   \<and> filtered_deviation PsxNewLib_consts 127 77 = (0, 0)
   \<and> hat_value PsxNewLib_consts 127 77 = JOYSTICK_HATSWITCH_RELEASE
   \<and> getRightAnalog (tick_at 20\<lparr>getRightAnalog := Some (127, 77)\<rparr>) = Some (127, 77)
   \<and> haveController (connected_sketch\<lparr>usbStick := example_joystick\<rparr>)
   \<and> POLLING_INTERVAL
        \<le> millis_test (tick_at 20\<lparr>getRightAnalog := Some (127, 77)\<rparr>)
          - last_millis (connected_sketch\<lparr>usbStick := example_joystick\<rparr>)
   \<and> read_ok (tick_at 20\<lparr>getRightAnalog := Some (127, 77)\<rparr>)
   \<and> hatSwitch example_joystick = 90
   \<and> hatSwitch (map_report PsxNewLib_consts (tick_at 20\<lparr>getRightAnalog := Some (127, 77)\<rparr>)
        example_joystick) = JOYSTICK_HATSWITCH_RELEASE
   \<and> snd (loop PsxNewLib_consts (tick_at 20\<lparr>getRightAnalog := Some (127, 77)\<rparr>)
        (connected_sketch\<lparr>usbStick := example_joystick\<rparr>))
      = [Psx_read, SendState (usbStick (fst (loop PsxNewLib_consts
          (tick_at 20\<lparr>getRightAnalog := Some (127, 77)\<rparr>)
          (connected_sketch\<lparr>usbStick := example_joystick\<rparr>))))]
   \<and> hatSwitch (usbStick (fst (loop PsxNewLib_consts
          (tick_at 20\<lparr>getRightAnalog := Some (127, 77)\<rparr>)
          (connected_sketch\<lparr>usbStick := example_joystick\<rparr>)))) = JOYSTICK_HATSWITCH_RELEASE"
proof -
  let ?i = "tick_at 20\<lparr>getRightAnalog := Some (127, 77)\<rparr>"
  let ?s = "connected_sketch\<lparr>usbStick := example_joystick\<rparr>"
  note t = dead_zone_per_axis_release [where c = PsxNewLib_consts and x = 127 and y = 77
      and i = ?i and j = example_joystick and s = ?s]
  note e = right_stick_tick_simps
  have h: "hatSwitch example_joystick = 90" by (simp add: example_joystick_def)
  from t have p1: "flip_coord PsxNewLib_consts 127 = 128 - uint (127 :: byte) - 1"
    and p2: "\<bar>flip_coord PsxNewLib_consts 77\<bar> \<le> 50"
    and p3: "hat_value PsxNewLib_consts 127 77 = JOYSTICK_HATSWITCH_RELEASE"
    using PsxNewLib_idle by blast+
  from t e filtered_PsxNewLib(6)
  have p4: "hatSwitch (map_report PsxNewLib_consts ?i example_joystick)
      = JOYSTICK_HATSWITCH_RELEASE"
    by blast
  from t e filtered_PsxNewLib(6)
  have p5: "snd (loop PsxNewLib_consts ?i ?s)
        = [Psx_read, SendState (usbStick (fst (loop PsxNewLib_consts ?i ?s)))]
      \<and> hatSwitch (usbStick (fst (loop PsxNewLib_consts ?i ?s))) = JOYSTICK_HATSWITCH_RELEASE"
    by blast
  show ?thesis
    using PsxNewLib_idle p1 p2 p3 p4 p5 h e filtered_PsxNewLib(6) by blast
qed

text \<open>
  C10. After the dead-zone filter each deviation is 0 or has a magnitude above 50, and
  \<^verbatim>\<open>atan2\<close> is never called with both arguments 0.
\<close>

theorem filtered_deviation_zero_or_beyond:
  "(fst (filtered_deviation c x y) = 0 \<or> 50 < \<bar>fst (filtered_deviation c x y)\<bar>)
   \<and> (snd (filtered_deviation c x y) = 0 \<or> 50 < \<bar>snd (filtered_deviation c x y)\<bar>)
   \<and> atan2_args c x y \<noteq> Some (0, 0)"
  by (auto simp: filtered_deviation_def deadify_alt dead_zone_50 atan2_args_def)

theorem filtered_deviation_zero_or_beyond_witness:
  "snd (filtered_deviation PsxNewLib_consts 200 127) = 0
   \<and> 50 < \<bar>fst (filtered_deviation PsxNewLib_consts 200 127)\<bar>
   \<and> atan2_args PsxNewLib_consts 200 127 \<noteq> Some (0, 0)"
  using filtered_deviation_zero_or_beyond [of PsxNewLib_consts 200 127]
  by (simp add: filtered_PsxNewLib)

text \<open>
  C5. When the filtered deviations are not both zero, the value passed to the hat switch is
  the cast of \<open>toDegrees (atan2 (ry, rx) + 2 pi - pi / 2) + 0.5\<close> reduced modulo 360, and it
  lies in \<open>[0, 360)\<close>. The argument of the cast is inside the range of \<^verbatim>\<open>uint16_t\<close>, so
  the cast is defined.
\<close>

theorem hat_angle_in_range:
  assumes "filtered_deviation c x y = (rx, ry)" and "\<not> (rx = 0 \<and> ry = 0)"
  shows "hat_value c x y =
           int (cast_uint16 (toDegrees (atan2 (real_of_int ry) (real_of_int rx) + 2 * pi - pi / 2)
                  + 0.5) mod 360)
     \<and> 0 \<le> hat_value c x y \<and> hat_value c x y < 360
     \<and> 0 \<le> toDegrees (atan2 (real_of_int ry) (real_of_int rx) + 2 * pi - pi / 2) + 0.5
     \<and> toDegrees (atan2 (real_of_int ry) (real_of_int rx) + 2 * pi - pi / 2) + 0.5 < 65536"
proof -
  have v: "hat_value c x y = int (intAngle ry rx)"
    using assms by (auto simp: hat_value_alt)
  have r: "90 < hat_degrees ry rx \<and> hat_degrees ry rx < 451"
    by (rule hat_degrees_in_cast_range)
  show ?thesis
    using v r intAngle_less_360 [of ry rx]
    by (simp add: intAngle_def hat_degrees_def)
qed

theorem hat_angle_in_range_witness:
  "filtered_deviation PsxNewLib_consts 200 127 = (- 73, 0)
   \<and> \<not> ((- 73 :: int) = 0 \<and> (0 :: int) = 0)
   \<and> 0 \<le> hat_value PsxNewLib_consts 200 127 \<and> hat_value PsxNewLib_consts 200 127 < 360"
  using hat_angle_in_range [of PsxNewLib_consts 200 127 "- 73" 0]
  by (simp add: filtered_PsxNewLib)

text \<open>
  C1, as the code has it. For a filtered deviation \<open>(rx, 0)\<close> with \<open>rx > 0\<close> the hat
  angle is 270; for \<open>(0, ry)\<close> with \<open>ry > 0\<close> it is 0; for \<open>(rx, 0)\<close> with \<open>rx < 0\<close> it
  is 90; for \<open>(0, ry)\<close> with \<open>ry < 0\<close> it is 180. The deviations are flipped
  (\<open>center - raw - 1\<close>), so a stick pushed to the right has a negative \<open>rx\<close> and gives 90.
\<close>

theorem hat_axis_directions:
  assumes "filtered_deviation c x y = (rx, ry)"
  shows "(0 < rx \<and> ry = 0 \<longrightarrow> hat_value c x y = 270)
       \<and> (rx = 0 \<and> 0 < ry \<longrightarrow> hat_value c x y = 0)
       \<and> (rx < 0 \<and> ry = 0 \<longrightarrow> hat_value c x y = 90)
       \<and> (rx = 0 \<and> ry < 0 \<longrightarrow> hat_value c x y = 180)"
  using assms
  by (auto simp: hat_value_alt intAngle_pos_x intAngle_neg_x intAngle_pos_y intAngle_neg_y)

theorem hat_axis_directions_witness:
  "filtered_deviation PsxNewLib_consts 0 127 = (127, 0)
   \<and> hat_value PsxNewLib_consts 0 127 = 270
   \<and> filtered_deviation PsxNewLib_consts 127 0 = (0, 127)
   \<and> hat_value PsxNewLib_consts 127 0 = 0
   \<and> filtered_deviation PsxNewLib_consts 255 127 = (- 128, 0)
   \<and> hat_value PsxNewLib_consts 255 127 = 90
   \<and> filtered_deviation PsxNewLib_consts 127 255 = (0, - 128)
   \<and> hat_value PsxNewLib_consts 127 255 = 180"
  using hat_axis_directions [OF filtered_PsxNewLib(1)] hat_axis_directions [OF filtered_PsxNewLib(2)]
    hat_axis_directions [OF filtered_PsxNewLib(3)] hat_axis_directions [OF filtered_PsxNewLib(4)]
  by (simp add: filtered_PsxNewLib)

text \<open>
  The stick fully to the left, raw \<open>(0, 127)\<close>, has the filtered deviation \<open>(127, 0)\<close>
  and the hat angle 270, not 90; fully to the right, raw \<open>(255, 127)\<close>, it has
  \<open>(-128, 0)\<close> and the hat angle 90, not 270.
\<close>

theorem hat_positive_deviation_is_270:
  "filtered_deviation PsxNewLib_consts 0 127 = (127, 0)
   \<and> hat_value PsxNewLib_consts 0 127 = 270
   \<and> filtered_deviation PsxNewLib_consts 255 127 = (- 128, 0)
   \<and> hat_value PsxNewLib_consts 255 127 = 90"
  by (simp add: filtered_PsxNewLib hat_value_alt intAngle_pos_x intAngle_neg_x)

text \<open>
  C2, as the code has it. For the raw input \<open>(200, 127)\<close> the x deviation is kept (-73
  with the idle value 128, -74 with 127), the y deviation is 0 after the filter, and the
  report mapper sets the hat switch to 90, which is what a poll then sends:
  \<open>atan2 (0, rx)\<close> is 180 degrees for a negative \<open>rx\<close>, plus 270 is 450, which is 90
  modulo 360.
\<close>

theorem hat_raw_200_127:
  "(ANALOG_IDLE_VALUE c = 128 \<longrightarrow>
      flip_coord c 200 = - 73 \<and> flip_coord c 127 = 0
      \<and> filtered_deviation c 200 127 = (- 73, 0) \<and> hat_value c 200 127 = 90)
   \<and> (ANALOG_IDLE_VALUE c = 127 \<longrightarrow>
      flip_coord c 200 = - 74 \<and> flip_coord c 127 = - 1
      \<and> filtered_deviation c 200 127 = (- 74, 0) \<and> hat_value c 200 127 = 90)
   \<and> ((ANALOG_IDLE_VALUE c = 128 \<or> ANALOG_IDLE_VALUE c = 127)
        \<and> getRightAnalog i = Some (200, 127) \<longrightarrow>
      hatSwitch (map_report c i j) = 90)
   \<and> ((ANALOG_IDLE_VALUE c = 128 \<or> ANALOG_IDLE_VALUE c = 127)
        \<and> getRightAnalog i = Some (200, 127) \<and> haveController s
        \<and> POLLING_INTERVAL \<le> millis_test i - last_millis s \<and> read_ok i \<longrightarrow>
      snd (loop c i s) = [Psx_read, SendState (usbStick (fst (loop c i s)))]
      \<and> hatSwitch (usbStick (fst (loop c i s))) = 90)"
proof -
  have a: "(ANALOG_IDLE_VALUE c = 128 \<longrightarrow>
      flip_coord c 200 = - 73 \<and> flip_coord c 127 = 0
      \<and> filtered_deviation c 200 127 = (- 73, 0) \<and> hat_value c 200 127 = 90)
   \<and> (ANALOG_IDLE_VALUE c = 127 \<longrightarrow>
      flip_coord c 200 = - 74 \<and> flip_coord c 127 = - 1
      \<and> filtered_deviation c 200 127 = (- 74, 0) \<and> hat_value c 200 127 = 90)"
    by (simp add: hat_value_alt filtered_deviation_def flip_coord_def deadify_alt dead_zone_50
        intAngle_neg_x)
  have m: "hatSwitch (map_report c i j') = 90"
    if "ANALOG_IDLE_VALUE c = 128 \<or> ANALOG_IDLE_VALUE c = 127"
      "getRightAnalog i = Some (200, 127)" for j'
    using that a by (auto simp: hatSwitch_map_report)
  have l: "snd (loop c i s) = [Psx_read, SendState (usbStick (fst (loop c i s)))]
      \<and> hatSwitch (usbStick (fst (loop c i s))) = 90"
    if "ANALOG_IDLE_VALUE c = 128 \<or> ANALOG_IDLE_VALUE c = 127"
      "getRightAnalog i = Some (200, 127)" "haveController s"
      "POLLING_INTERVAL \<le> millis_test i - last_millis s" "read_ok i"
    using m [OF that(1) that(2)] loop_connected_report [OF that(4) that(3) that(5), of c]
    by simp
  show ?thesis using a m l by blast
qed

theorem hat_raw_200_127_witness:
  "ANALOG_IDLE_VALUE PsxNewLib_consts = 128
   \<and> filtered_deviation PsxNewLib_consts 200 127 = (- 73, 0)
   \<and> hat_value PsxNewLib_consts 200 127 = 90
   \<and> ANALOG_IDLE_VALUE spec_idle_consts = 127
   \<and> filtered_deviation spec_idle_consts 200 127 = (- 74, 0)
   \<and> hat_value spec_idle_consts 200 127 = 90
   \<and> getRightAnalog (tick_at 20\<lparr>getRightAnalog := Some (200, 127)\<rparr>) = Some (200, 127)
   \<and> haveController
        (connected_sketch\<lparr>usbStick := example_joystick\<lparr>hatSwitch := JOYSTICK_HATSWITCH_RELEASE\<rparr>\<rparr>)
   \<and> POLLING_INTERVAL
        \<le> millis_test (tick_at 20\<lparr>getRightAnalog := Some (200, 127)\<rparr>)
          - last_millis
              (connected_sketch\<lparr>usbStick := example_joystick\<lparr>hatSwitch := JOYSTICK_HATSWITCH_RELEASE\<rparr>\<rparr>)
   \<and> read_ok (tick_at 20\<lparr>getRightAnalog := Some (200, 127)\<rparr>)
   \<and> hatSwitch (map_report PsxNewLib_consts (tick_at 20\<lparr>getRightAnalog := Some (200, 127)\<rparr>)
        (example_joystick\<lparr>hatSwitch := JOYSTICK_HATSWITCH_RELEASE\<rparr>)) = 90
   \<and> hatSwitch (map_report spec_idle_consts (tick_at 20\<lparr>getRightAnalog := Some (200, 127)\<rparr>)
        (example_joystick\<lparr>hatSwitch := JOYSTICK_HATSWITCH_RELEASE\<rparr>)) = 90
   \<and> hatSwitch (usbStick (fst (loop PsxNewLib_consts
        (tick_at 20\<lparr>getRightAnalog := Some (200, 127)\<rparr>)
        (connected_sketch\<lparr>usbStick := example_joystick\<lparr>hatSwitch := JOYSTICK_HATSWITCH_RELEASE\<rparr>\<rparr>))))
      = 90"
proof -
  let ?i = "tick_at 20\<lparr>getRightAnalog := Some (200, 127)\<rparr>"
  let ?j = "example_joystick\<lparr>hatSwitch := JOYSTICK_HATSWITCH_RELEASE\<rparr>"
  let ?s = "connected_sketch\<lparr>usbStick := ?j\<rparr>"
  note t = hat_raw_200_127 [where c = PsxNewLib_consts and i = ?i and j = ?j and s = ?s]
  note u = hat_raw_200_127 [where c = spec_idle_consts and i = ?i and j = ?j and s = ?s]
  note e = right_stick_tick_simps
  from t PsxNewLib_idle
  have p1: "filtered_deviation PsxNewLib_consts 200 127 = (- 73, 0)
      \<and> hat_value PsxNewLib_consts 200 127 = 90"
    by blast
  from u spec_idle
  have p2: "filtered_deviation spec_idle_consts 200 127 = (- 74, 0)
      \<and> hat_value spec_idle_consts 200 127 = 90"
    by blast
  from t PsxNewLib_idle e
  have p3: "hatSwitch (map_report PsxNewLib_consts ?i ?j) = 90"
    and p5: "hatSwitch (usbStick (fst (loop PsxNewLib_consts ?i ?s))) = 90"
    by blast+
  from u spec_idle e
  have p4: "hatSwitch (map_report spec_idle_consts ?i ?j) = 90"
    by blast
  show ?thesis
    using PsxNewLib_idle spec_idle p1 p2 p3 p4 p5 e by blast
qed

text \<open>
  A connected sketch whose hat switch is released polls a controller with the right stick
  at raw \<open>(200, 127)\<close>: the report it sends has the hat switch at 90, under either idle
  value, not at 180.
\<close>

theorem hat_raw_200_127_not_180:
  "getRightAnalog (tick_at 20\<lparr>getRightAnalog := Some (200, 127)\<rparr>) = Some (200, 127)
   \<and> snd (loop PsxNewLib_consts (tick_at 20\<lparr>getRightAnalog := Some (200, 127)\<rparr>)
        (connected_sketch\<lparr>usbStick := example_joystick\<lparr>hatSwitch := JOYSTICK_HATSWITCH_RELEASE\<rparr>\<rparr>))
      = [Psx_read, SendState (map_report PsxNewLib_consts
          (tick_at 20\<lparr>getRightAnalog := Some (200, 127)\<rparr>)
          (example_joystick\<lparr>hatSwitch := JOYSTICK_HATSWITCH_RELEASE\<rparr>))]
   \<and> hatSwitch (map_report PsxNewLib_consts (tick_at 20\<lparr>getRightAnalog := Some (200, 127)\<rparr>)
        (example_joystick\<lparr>hatSwitch := JOYSTICK_HATSWITCH_RELEASE\<rparr>)) = 90
   \<and> hatSwitch (map_report PsxNewLib_consts (tick_at 20\<lparr>getRightAnalog := Some (200, 127)\<rparr>)
        (example_joystick\<lparr>hatSwitch := JOYSTICK_HATSWITCH_RELEASE\<rparr>)) \<noteq> 180
   \<and> hatSwitch (map_report spec_idle_consts (tick_at 20\<lparr>getRightAnalog := Some (200, 127)\<rparr>)
        (example_joystick\<lparr>hatSwitch := JOYSTICK_HATSWITCH_RELEASE\<rparr>)) = 90
   \<and> hatSwitch (map_report spec_idle_consts (tick_at 20\<lparr>getRightAnalog := Some (200, 127)\<rparr>)
        (example_joystick\<lparr>hatSwitch := JOYSTICK_HATSWITCH_RELEASE\<rparr>)) \<noteq> 180"
proof -
  let ?i = "tick_at 20\<lparr>getRightAnalog := Some (200, 127)\<rparr>"
  let ?j = "example_joystick\<lparr>hatSwitch := JOYSTICK_HATSWITCH_RELEASE\<rparr>"
  let ?s = "connected_sketch\<lparr>usbStick := ?j\<rparr>"
  note e = right_stick_tick_simps
  have h: "hat_value PsxNewLib_consts 200 127 = 90" "hat_value spec_idle_consts 200 127 = 90"
    by (simp_all add: filtered_PsxNewLib filtered_spec_idle hat_value_alt intAngle_neg_x)
  have m: "hatSwitch (map_report PsxNewLib_consts ?i ?j) = 90"
    "hatSwitch (map_report spec_idle_consts ?i ?j) = 90"
    by (simp_all add: hatSwitch_map_report e(5) h)
  have l: "snd (loop PsxNewLib_consts ?i ?s)
      = [Psx_read, SendState (map_report PsxNewLib_consts ?i ?j)]"
    using loop_connected_report(2) [OF e(1) e(2) e(4), of PsxNewLib_consts] by (simp add: e(3))
  show ?thesis using e(5) m l by simp
qed

section \<open>The D-pad\<close>

text \<open>
  C3, as the code has it. Up pressed sets the Y axis to the configured minimum; down
  pressed while up is not sets it to the configured maximum; neither pressed sets it to
  idle; the X axis follows left and right in the same way. Up is tested before down, and
  the test of down is in the \<^verbatim>\<open>else\<close> of the test of up: when both are pressed up wins
  and Y is the minimum (left wins over right for X).
\<close>

theorem dpad_axes_first_test_wins:
  "yAxis (map_report c i j) =
     (if buttonPressed i PSB_PAD_UP then uint (ANALOG_MIN_VALUE c)
      else if buttonPressed i PSB_PAD_DOWN then uint (ANALOG_MAX_VALUE c)
      else uint (ANALOG_IDLE_VALUE c))
   \<and> xAxis (map_report c i j) =
     (if buttonPressed i PSB_PAD_LEFT then uint (ANALOG_MIN_VALUE c)
      else if buttonPressed i PSB_PAD_RIGHT then uint (ANALOG_MAX_VALUE c)
      else uint (ANALOG_IDLE_VALUE c))
   \<and> (buttonPressed i PSB_PAD_UP \<and> buttonPressed i PSB_PAD_DOWN \<longrightarrow>
        yAxis (map_report c i j) = uint (ANALOG_MIN_VALUE c))
   \<and> (buttonPressed i PSB_PAD_LEFT \<and> buttonPressed i PSB_PAD_RIGHT \<longrightarrow>
        xAxis (map_report c i j) = uint (ANALOG_MIN_VALUE c))"
  by (simp add: yAxis_map_report xAxis_map_report)

theorem dpad_axes_first_test_wins_witness:
  "buttonPressed (tick_at 20\<lparr>buttonPressed := up_down_left_right\<rparr>) PSB_PAD_UP
   \<and> buttonPressed (tick_at 20\<lparr>buttonPressed := up_down_left_right\<rparr>) PSB_PAD_DOWN
   \<and> buttonPressed (tick_at 20\<lparr>buttonPressed := up_down_left_right\<rparr>) PSB_PAD_LEFT
   \<and> buttonPressed (tick_at 20\<lparr>buttonPressed := up_down_left_right\<rparr>) PSB_PAD_RIGHT
   \<and> yAxis (map_report PsxNewLib_consts (tick_at 20\<lparr>buttonPressed := up_down_left_right\<rparr>)
        example_joystick) = uint (ANALOG_MIN_VALUE PsxNewLib_consts)
   \<and> xAxis (map_report PsxNewLib_consts (tick_at 20\<lparr>buttonPressed := up_down_left_right\<rparr>)
        example_joystick) = uint (ANALOG_MIN_VALUE PsxNewLib_consts)"
  using dpad_axes_first_test_wins
    [of PsxNewLib_consts "tick_at 20\<lparr>buttonPressed := up_down_left_right\<rparr>" example_joystick]
  by (simp add: tick_at_def up_down_left_right_def)

text \<open>
  With up and down both pressed, the sketch that is connected and reads the controller
  sends a report whose Y axis is 0, the minimum, where the maximum is 255.
\<close>

theorem dpad_up_and_down_gives_minimum:
  "buttonPressed (tick_at 20\<lparr>buttonPressed := up_down_left_right\<rparr>) PSB_PAD_UP
   \<and> buttonPressed (tick_at 20\<lparr>buttonPressed := up_down_left_right\<rparr>) PSB_PAD_DOWN
   \<and> yAxis (usbStick (fst (loop PsxNewLib_consts
        (tick_at 20\<lparr>buttonPressed := up_down_left_right\<rparr>) connected_sketch))) = 0
   \<and> uint (ANALOG_MIN_VALUE PsxNewLib_consts) = 0
   \<and> uint (ANALOG_MAX_VALUE PsxNewLib_consts) = 255"
proof -
  let ?i = "tick_at 20\<lparr>buttonPressed := up_down_left_right\<rparr>"
  have d: "POLLING_INTERVAL \<le> millis_test ?i - last_millis connected_sketch"
    by (simp add: tick_at_def connected_sketch_simps POLLING_INTERVAL_def)
  have r: "read_ok ?i" by (simp add: tick_at_def)
  have "yAxis (usbStick (fst (loop PsxNewLib_consts ?i connected_sketch)))
      = yAxis (map_report PsxNewLib_consts ?i (usbStick connected_sketch))"
    by (simp add: loop_connected_read_ok [OF d connected_sketch_simps(2) r])
  then show ?thesis
    by (simp add: yAxis_map_report tick_at_def up_down_left_right_def PsxNewLib_consts_def)
qed

section \<open>The presence state machine\<close>

text \<open>
  C6. In a call that runs the poll with \<^verbatim>\<open>haveController\<close> set: when \<^verbatim>\<open>psx.read ()\<close>
  fails the flag is cleared and no report is sent; when it succeeds the flag stays set and
  exactly one report is sent, the joystick state as the mapper left it.
\<close>

theorem connected_read_transition:
  assumes "haveController s" and "POLLING_INTERVAL \<le> millis_test i - last_millis s"
  shows "(\<not> read_ok i \<longrightarrow>
            \<not> haveController (fst (loop c i s)) \<and> filter is_report (snd (loop c i s)) = [])
       \<and> (read_ok i \<longrightarrow>
            haveController (fst (loop c i s))
            \<and> filter is_report (snd (loop c i s)) = [SendState (usbStick (fst (loop c i s)))])"
  using assms by (simp add: loop_connected_read_fails loop_connected_read_ok)

theorem connected_read_transition_witness:
  "haveController connected_sketch
   \<and> POLLING_INTERVAL \<le> millis_test (tick_at 20) - last_millis connected_sketch
   \<and> read_ok (tick_at 20)
   \<and> \<not> read_ok (tick_at 20\<lparr>read_ok := False\<rparr>)
   \<and> \<not> haveController (fst (loop PsxNewLib_consts (tick_at 20\<lparr>read_ok := False\<rparr>) connected_sketch))
   \<and> filter is_report (snd (loop PsxNewLib_consts (tick_at 20\<lparr>read_ok := False\<rparr>) connected_sketch)) = []
   \<and> haveController (fst (loop PsxNewLib_consts (tick_at 20) connected_sketch))
   \<and> length (filter is_report (snd (loop PsxNewLib_consts (tick_at 20) connected_sketch))) = 1"
  using connected_read_transition [of connected_sketch "tick_at 20\<lparr>read_ok := False\<rparr>" PsxNewLib_consts]
    connected_read_transition [of connected_sketch "tick_at 20" PsxNewLib_consts]
    due_at_20 (2) [of False] due_at_20 (1)
  by (simp add: tick_at_simps connected_sketch_simps)

text \<open>
  C7, as the code has it. In a call that runs the poll with \<^verbatim>\<open>haveController\<close> clear and
  a successful \<^verbatim>\<open>psx.begin ()\<close>, \<^verbatim>\<open>enterConfigMode\<close> is called once; exactly when it
  succeeds, \<^verbatim>\<open>enableAnalogSticks\<close> and \<^verbatim>\<open>exitConfigMode\<close> follow, once each and whatever
  the first of them returns (they are in the \<^verbatim>\<open>else\<close> of the first step). Whatever the
  calls return, the flag is set. No other call of \<^verbatim>\<open>loop ()\<close> makes a configuration
  call; in particular none is made while the flag is set.
\<close>

theorem connect_configures_once:
  "(\<not> haveController s \<and> POLLING_INTERVAL \<le> millis_test i - last_millis s \<and> begin_ok i \<longrightarrow>
      haveController (fst (loop c i s))
      \<and> filter is_config (snd (loop c i s)) =
          (if enterConfigMode_ok i
           then [Psx_enterConfigMode, Psx_enableAnalogSticks, Psx_exitConfigMode]
           else [Psx_enterConfigMode]))
   \<and> (haveController s \<longrightarrow> filter is_config (snd (loop c i s)) = [])
   \<and> (filter is_config (snd (loop c i s)) \<noteq> []) =
       (\<not> haveController s \<and> POLLING_INTERVAL \<le> millis_test i - last_millis s \<and> begin_ok i)"
  by (simp add: loop_probe_ok config_calls configure_def)

theorem connect_configures_once_witness:
  "\<not> haveController boot_sketch
   \<and> POLLING_INTERVAL \<le> millis_test (tick_at 20) - last_millis boot_sketch
   \<and> begin_ok (tick_at 20)
   \<and> haveController (fst (loop PsxNewLib_consts (tick_at 20) boot_sketch))
   \<and> filter is_config (snd (loop PsxNewLib_consts (tick_at 20) boot_sketch)) =
       [Psx_enterConfigMode, Psx_enableAnalogSticks, Psx_exitConfigMode]
   \<and> haveController (fst (loop PsxNewLib_consts
         (tick_at 20\<lparr>enterConfigMode_ok := False\<rparr>) boot_sketch))
   \<and> filter is_config (snd (loop PsxNewLib_consts
         (tick_at 20\<lparr>enterConfigMode_ok := False\<rparr>) boot_sketch)) = [Psx_enterConfigMode]
   \<and> haveController connected_sketch
   \<and> filter is_config (snd (loop PsxNewLib_consts (tick_at 20) connected_sketch)) = []"
  using connect_configures_once [of boot_sketch "tick_at 20" PsxNewLib_consts]
    connect_configures_once [of boot_sketch "tick_at 20\<lparr>enterConfigMode_ok := False\<rparr>" PsxNewLib_consts]
    connect_configures_once [of connected_sketch "tick_at 20" PsxNewLib_consts]
    due_at_20 (3) due_at_20 (4) [of False]
  by (simp add: tick_at_simps boot_sketch_simps connected_sketch_simps)

text \<open>
  The sketch as it starts finds a controller whose \<^verbatim>\<open>enterConfigMode\<close> fails: the only
  calls are \<^verbatim>\<open>begin\<close> and \<^verbatim>\<open>enterConfigMode\<close>, the second and third step of the sequence
  are not attempted, and the flag is set.
\<close>

theorem enter_failure_skips_later_steps:
  "\<not> haveController boot_sketch
   \<and> POLLING_INTERVAL
        \<le> millis_test (tick_at 20\<lparr>enterConfigMode_ok := False\<rparr>) - last_millis boot_sketch
   \<and> begin_ok (tick_at 20\<lparr>enterConfigMode_ok := False\<rparr>)
   \<and> \<not> enterConfigMode_ok (tick_at 20\<lparr>enterConfigMode_ok := False\<rparr>)
   \<and> snd (loop PsxNewLib_consts (tick_at 20\<lparr>enterConfigMode_ok := False\<rparr>) boot_sketch)
      = [Psx_begin, Psx_enterConfigMode]
   \<and> Psx_enableAnalogSticks
      \<notin> set (snd (loop PsxNewLib_consts (tick_at 20\<lparr>enterConfigMode_ok := False\<rparr>) boot_sketch))
   \<and> Psx_exitConfigMode
      \<notin> set (snd (loop PsxNewLib_consts (tick_at 20\<lparr>enterConfigMode_ok := False\<rparr>) boot_sketch))
   \<and> haveController
        (fst (loop PsxNewLib_consts (tick_at 20\<lparr>enterConfigMode_ok := False\<rparr>) boot_sketch))"
proof -
  let ?i = "tick_at 20\<lparr>enterConfigMode_ok := False\<rparr>"
  have b: "begin_ok ?i" and n: "\<not> enterConfigMode_ok ?i" by (simp_all add: tick_at_def)
  have "loop PsxNewLib_consts ?i boot_sketch =
      (boot_sketch\<lparr>last_millis := millis_store ?i, haveController := True\<rparr>,
       Psx_begin # configure ?i)"
    using due_at_20 (4) [of False] boot_sketch_simps(2) b by (rule loop_probe_ok)
  then show ?thesis
    using due_at_20 (4) [of False] boot_sketch_simps(2) b n by (simp add: configure_def)
qed

text \<open>
  C9. In a call that runs the poll, connected and with a successful read: when
  \<^verbatim>\<open>getLeftAnalog\<close> fails, the Rx and Ry axes keep the values of the joystick state before
  the call; when \<^verbatim>\<open>getRightAnalog\<close> fails, so does the hat switch; the report is sent all
  the same. There are two states and one frame with two different reports, so the report
  is not a function of the frame alone.
\<close>

theorem failed_stick_read_keeps_previous:
  assumes "haveController s" and "POLLING_INTERVAL \<le> millis_test i - last_millis s"
    and "read_ok i"
  shows "(getLeftAnalog i = None \<longrightarrow>
            rxAxis (usbStick (fst (loop c i s))) = rxAxis (usbStick s)
            \<and> ryAxis (usbStick (fst (loop c i s))) = ryAxis (usbStick s))
       \<and> (getRightAnalog i = None \<longrightarrow>
            hatSwitch (usbStick (fst (loop c i s))) = hatSwitch (usbStick s))
       \<and> snd (loop c i s) = [Psx_read, SendState (usbStick (fst (loop c i s)))]
       \<and> (\<exists>s1 s2 f. haveController s1 \<and> haveController s2
             \<and> last_millis s1 = last_millis s2
             \<and> POLLING_INTERVAL \<le> millis_test f - last_millis s1 \<and> read_ok f
             \<and> snd (loop c f s1) \<noteq> snd (loop c f s2))"
proof -
  let ?s2 = "connected_sketch\<lparr>usbStick := example_joystick\<lparr>rxAxis := 0\<rparr>\<rparr>"
  have "haveController connected_sketch \<and> haveController ?s2
      \<and> last_millis connected_sketch = last_millis ?s2
      \<and> POLLING_INTERVAL \<le> millis_test (tick_at 20) - last_millis connected_sketch
      \<and> read_ok (tick_at 20)
      \<and> snd (loop c (tick_at 20) connected_sketch) \<noteq> snd (loop c (tick_at 20) ?s2)"
    using report_depends_on_previous_state [of c] due_at_20 (1)
    by (simp add: connected_sketch_simps tick_at_simps)
  then have ex: "\<exists>s1 s2 f. haveController s1 \<and> haveController s2
             \<and> last_millis s1 = last_millis s2
             \<and> POLLING_INTERVAL \<le> millis_test f - last_millis s1 \<and> read_ok f
             \<and> snd (loop c f s1) \<noteq> snd (loop c f s2)"
    by blast
  have "(getLeftAnalog i = None \<longrightarrow>
            rxAxis (usbStick (fst (loop c i s))) = rxAxis (usbStick s)
            \<and> ryAxis (usbStick (fst (loop c i s))) = ryAxis (usbStick s))
       \<and> (getRightAnalog i = None \<longrightarrow>
            hatSwitch (usbStick (fst (loop c i s))) = hatSwitch (usbStick s))
       \<and> snd (loop c i s) = [Psx_read, SendState (usbStick (fst (loop c i s)))]"
    using assms
    by (simp add: loop_connected_read_ok rxAxis_map_report ryAxis_map_report
        hatSwitch_map_report)
  with ex show ?thesis by blast
qed

theorem failed_stick_read_keeps_previous_witness:
  "haveController connected_sketch
   \<and> POLLING_INTERVAL \<le> millis_test (tick_at 20) - last_millis connected_sketch
   \<and> read_ok (tick_at 20)
   \<and> getLeftAnalog (tick_at 20) = None \<and> getRightAnalog (tick_at 20) = None
   \<and> rxAxis (usbStick (fst (loop PsxNewLib_consts (tick_at 20) connected_sketch))) = 200
   \<and> ryAxis (usbStick (fst (loop PsxNewLib_consts (tick_at 20) connected_sketch))) = 30
   \<and> hatSwitch (usbStick (fst (loop PsxNewLib_consts (tick_at 20) connected_sketch))) = 90
   \<and> snd (loop PsxNewLib_consts (tick_at 20) connected_sketch) =
       [Psx_read, SendState (usbStick (fst (loop PsxNewLib_consts (tick_at 20) connected_sketch)))]"
proof -
  note t = failed_stick_read_keeps_previous
    [OF connected_sketch_simps(2) due_at_20(1) tick_at_simps(4), of PsxNewLib_consts]
  from t have "rxAxis (usbStick (fst (loop PsxNewLib_consts (tick_at 20) connected_sketch)))
        = rxAxis (usbStick connected_sketch)
      \<and> ryAxis (usbStick (fst (loop PsxNewLib_consts (tick_at 20) connected_sketch)))
        = ryAxis (usbStick connected_sketch)
      \<and> hatSwitch (usbStick (fst (loop PsxNewLib_consts (tick_at 20) connected_sketch)))
        = hatSwitch (usbStick connected_sketch)
      \<and> snd (loop PsxNewLib_consts (tick_at 20) connected_sketch) =
       [Psx_read, SendState (usbStick (fst (loop PsxNewLib_consts (tick_at 20) connected_sketch)))]"
    by (simp add: tick_at_simps)
  then show ?thesis
    using due_at_20 (1)
    by (simp add: connected_sketch_simps tick_at_simps example_joystick_def)
qed

section \<open>The poll scheduler\<close>

lemma clock_words_Cons:
  "clock_words (i # ts) = millis_test i # millis_store i # clock_words ts"
  by (simp add: clock_words_def)

text \<open>
  The test of line 88 against the time that really passed. The clock shows the low 32 bits
  of the milliseconds since the start; when the test succeeds between the times \<open>l\<close> and
  \<open>a\<close>, at least 20 ms have passed, across a wrap-around of the clock as well.
\<close>

lemma due_elapsed:
  assumes "POLLING_INTERVAL \<le> (of_nat a :: ulong) - of_nat l" and "l \<le> a"
  shows "l + 20 \<le> a"
proof -
  from assms(2) have "(of_nat a :: ulong) - of_nat l = of_nat (a - l)" by simp
  with assms(1) have "20 \<le> unat (of_nat (a - l) :: ulong)"
    by (simp add: POLLING_INTERVAL_20 word_le_nat_alt)
  also have "unat (of_nat (a - l) :: ulong) \<le> a - l"
    by (simp add: unat_of_nat)
  finally show ?thesis using assms(2) by linarith
qed

lemma run_nth:
  "k < length ts \<Longrightarrow> run c s ts ! k = snd (loop c (ts ! k) (state_after c s (take k ts)))"
proof (induction ts arbitrary: s k)
  case Nil
  then show ?case by simp
next
  case (Cons i ts)
  then show ?case by (cases k) simp_all
qed

text \<open>
  Every later poll is at least 20 ms after the time \<open>l\<close> whose clock value the state
  holds as its time stamp.
\<close>

lemma ran_after_stamp:
  assumes "sorted (l # rt)" and "map of_nat rt = clock_words ts"
    and "last_millis s = of_nat l"
    and "k < length ts" and "run c s ts ! k \<noteq> []"
  shows "l + 20 \<le> rt ! (2 * k)"
  using assms
proof (induction ts arbitrary: s k l rt)
  case Nil
  then show ?case by simp
next
  case (Cons i ts)
  from Cons.prems(2) obtain a b rt' where rt: "rt = a # b # rt'"
    and a: "millis_test i = of_nat a" and b: "millis_store i = of_nat b"
    and rt': "map of_nat rt' = clock_words ts"
    by (auto simp: clock_words_Cons map_eq_Cons_conv)
  from Cons.prems(1) rt have la: "l \<le> a" and lb: "l \<le> b"
    and sl: "sorted (l # rt')" and sb: "sorted (b # rt')"
    by auto
  show ?case
  proof (cases k)
    case 0
    with Cons.prems(5) have "snd (loop c i s) \<noteq> []" by simp
    then have "POLLING_INTERVAL \<le> millis_test i - last_millis s"
      by (rule loop_ran_due)
    with a Cons.prems(3) la have "l + 20 \<le> a" by (simp add: due_elapsed)
    with 0 rt show ?thesis by simp
  next
    case (Suc k')
    let ?s' = "fst (loop c i s)"
    from Cons.prems Suc have k': "k' < length ts" "run c ?s' ts ! k' \<noteq> []" by simp_all
    show ?thesis
    proof (cases "POLLING_INTERVAL \<le> millis_test i - last_millis s")
      case True
      then have "last_millis ?s' = of_nat b" by (simp add: loop_last_millis b)
      then have "b + 20 \<le> rt' ! (2 * k')" by (rule Cons.IH [OF sb rt' _ k'])
      with lb Suc rt show ?thesis by simp
    next
      case False
      then have "last_millis ?s' = of_nat l" by (simp add: loop_last_millis Cons.prems(3))
      then have "l + 20 \<le> rt' ! (2 * k')" by (rule Cons.IH [OF sl rt' _ k'])
      with Suc rt show ?thesis by simp
    qed
  qed
qed

text \<open>Two calls that both run the poll are at least 20 ms apart.\<close>

lemma runs_20_apart:
  assumes "sorted rt" and "map of_nat rt = clock_words ts"
    and "j < k" and "k < length ts"
    and "run c s ts ! j \<noteq> []" and "run c s ts ! k \<noteq> []"
  shows "rt ! (2 * j) + 20 \<le> rt ! (2 * k)"
  using assms
proof (induction ts arbitrary: s j k rt)
  case Nil
  then show ?case by simp
next
  case (Cons i ts)
  from Cons.prems(2) obtain a b rt' where rt: "rt = a # b # rt'"
    and a: "millis_test i = of_nat a" and b: "millis_store i = of_nat b"
    and rt': "map of_nat rt' = clock_words ts"
    by (auto simp: clock_words_Cons map_eq_Cons_conv)
  from Cons.prems(1) rt have ab: "a \<le> b" and sb: "sorted (b # rt')" and sr: "sorted rt'"
    by auto
  from Cons.prems(3) obtain k' where k: "k = Suc k'" by (cases k) auto
  let ?s' = "fst (loop c i s)"
  show ?case
  proof (cases j)
    case 0
    with Cons.prems(5) have "POLLING_INTERVAL \<le> millis_test i - last_millis s"
      by (simp add: loop_ran_due)
    then have st: "last_millis ?s' = of_nat b" by (simp add: loop_last_millis b)
    from Cons.prems k have "k' < length ts" "run c ?s' ts ! k' \<noteq> []" by simp_all
    with sb rt' st have "b + 20 \<le> rt' ! (2 * k')" by (rule ran_after_stamp)
    with ab k 0 rt show ?thesis by simp
  next
    case (Suc j')
    from Cons.prems k Suc have "j' < k'" "k' < length ts"
      "run c ?s' ts ! j' \<noteq> []" "run c ?s' ts ! k' \<noteq> []" by simp_all
    with sr rt' have "rt' ! (2 * j') + 20 \<le> rt' ! (2 * k')" by (rule Cons.IH)
    with k Suc rt show ?thesis by simp
  qed
qed

text \<open>
  C8. The interval is 20 ms. A call in which the 32-bit difference between the clock and
  the stored time stamp is below 20 changes nothing and calls nothing. A call in which it
  is at least 20 stores the clock as the new time stamp and runs the poll. In a sequence of
  calls, the call at position \<open>k\<close> runs the poll exactly when that difference, taken
  against the state the earlier calls left, is at least 20. Let \<open>rt\<close> be the times, in
  milliseconds since the start and not decreasing, at which the sketch reads the clock,
  the clock showing their low 32 bits (a call that does not run the poll reads the clock
  once; its second value is then any time between its neighbours). Two calls that both
  run the poll have made their first reading at least 20 ms apart, so the poll runs at most
  once in any 20 ms, whether or not the clock wraps around in between.
\<close>

theorem poll_scheduler_interval:
  "POLLING_INTERVAL = 20
   \<and> (millis_test i - last_millis s < POLLING_INTERVAL \<longrightarrow> loop c i s = (s, []))
   \<and> (POLLING_INTERVAL \<le> millis_test i - last_millis s \<longrightarrow>
        last_millis (fst (loop c i s)) = millis_store i \<and> snd (loop c i s) \<noteq> [])
   \<and> (k < length ts \<longrightarrow>
        (run c s ts ! k \<noteq> []) =
        (POLLING_INTERVAL \<le> millis_test (ts ! k) - last_millis (state_after c s (take k ts))))
   \<and> (sorted rt \<and> map of_nat rt = clock_words ts \<and> j < k \<and> k < length ts
        \<and> run c s ts ! j \<noteq> [] \<and> run c s ts ! k \<noteq> [] \<longrightarrow>
        rt ! (2 * j) + 20 \<le> rt ! (2 * k))"
proof -
  have a: "loop c i s = (s, [])" if "millis_test i - last_millis s < POLLING_INTERVAL"
    using that by (simp add: loop_not_due not_le)
  have b: "(run c s ts ! k \<noteq> []) =
        (POLLING_INTERVAL \<le> millis_test (ts ! k) - last_millis (state_after c s (take k ts)))"
    if "k < length ts"
    using that loop_due_last [of "ts ! k" "state_after c s (take k ts)" c]
      loop_ran_due [of c "ts ! k" "state_after c s (take k ts)"]
    by (auto simp: run_nth)
  show ?thesis
    using a b loop_due_last [of i s c] runs_20_apart [of rt ts j k c s] POLLING_INTERVAL_20
    by blast
qed

theorem poll_scheduler_interval_witness:
  "millis_test (tick_at 5) - last_millis boot_sketch < POLLING_INTERVAL
   \<and> loop PsxNewLib_consts (tick_at 5) boot_sketch = (boot_sketch, [])
   \<and> POLLING_INTERVAL \<le> millis_test (tick_at 20) - last_millis boot_sketch
   \<and> last_millis (fst (loop PsxNewLib_consts (tick_at 20) boot_sketch)) = 20
   \<and> sorted [5, 5, 20, 20, 30, 30, 45, 45 :: nat]
   \<and> map of_nat [5, 5, 20, 20, 30, 30, 45, 45]
       = clock_words [tick_at 5, tick_at 20, tick_at 30, tick_at 45]
   \<and> run PsxNewLib_consts boot_sketch [tick_at 5, tick_at 20, tick_at 30, tick_at 45] ! 1 \<noteq> []
   \<and> run PsxNewLib_consts boot_sketch [tick_at 5, tick_at 20, tick_at 30, tick_at 45] ! 3 \<noteq> []
   \<and> [5, 5, 20, 20, 30, 30, 45, 45 :: nat] ! (2 * 1) + 20
       \<le> [5, 5, 20, 20, 30, 30, 45, 45] ! (2 * 3)
   \<and> sorted [4294967290, 4294967290, 4294967310, 4294967310 :: nat]
   \<and> map of_nat [4294967290, 4294967290, 4294967310, 4294967310]
       = clock_words [tick_at 4294967290, tick_at 14]
   \<and> run PsxNewLib_consts boot_sketch [tick_at 4294967290, tick_at 14] ! 0 \<noteq> []
   \<and> run PsxNewLib_consts boot_sketch [tick_at 4294967290, tick_at 14] ! 1 \<noteq> []
   \<and> [4294967290, 4294967290, 4294967310, 4294967310 :: nat] ! (2 * 0) + 20
       \<le> [4294967290, 4294967290, 4294967310, 4294967310] ! (2 * 1)"
proof -
  let ?ts = "[tick_at 5, tick_at 20, tick_at 30, tick_at 45]"
  let ?rt = "[5, 5, 20, 20, 30, 30, 45, 45 :: nat]"
  let ?ws = "[tick_at 4294967290, tick_at 14]"
  let ?rw = "[4294967290, 4294967290, 4294967310, 4294967310 :: nat]"
  have a: "millis_test (tick_at 5) - last_millis boot_sketch < POLLING_INTERVAL"
    by (simp add: tick_at_simps boot_sketch_simps POLLING_INTERVAL_def)
  have n: "(1::nat) < 3" "3 < length ?ts" "(0::nat) < 1" "1 < length ?ws"
    by simp_all
  have srt: "sorted ?rt" "sorted ?rw" by simp_all
  note early = poll_scheduler_interval [where i = "tick_at 5" and s = boot_sketch
      and c = PsxNewLib_consts and j = 1 and k = 3 and ts = ?ts and rt = ?rt]
  note due = poll_scheduler_interval [where i = "tick_at 20" and s = boot_sketch
      and c = PsxNewLib_consts and j = 1 and k = 3 and ts = ?ts and rt = ?rt]
  note wrap = poll_scheduler_interval [where i = "tick_at 20" and s = boot_sketch
      and c = PsxNewLib_consts and j = 0 and k = 1 and ts = ?ws and rt = ?rw]
  from early a have c1: "loop PsxNewLib_consts (tick_at 5) boot_sketch = (boot_sketch, [])"
    by blast
  from due due_at_20 (3)
  have c2: "last_millis (fst (loop PsxNewLib_consts (tick_at 20) boot_sketch))
      = millis_store (tick_at 20)"
    by blast
  from due n srt example_clock example_run [of PsxNewLib_consts]
  have c3: "?rt ! (2 * 1) + 20 \<le> ?rt ! (2 * 3)"
    by blast
  from wrap n srt example_wrap_clock example_wrap_run [of PsxNewLib_consts]
  have c4: "?rw ! (2 * 0) + 20 \<le> ?rw ! (2 * 1)"
    by blast
  from c2 have c2': "last_millis (fst (loop PsxNewLib_consts (tick_at 20) boot_sketch)) = 20"
    by (simp add: tick_at_simps)
  show ?thesis
    using a due_at_20 (3) c1 c2' c3 c4 srt example_clock example_wrap_clock
      example_run [of PsxNewLib_consts] example_wrap_run [of PsxNewLib_consts]
    by blast
qed

end
